theory Spec2Isabelle
  imports Main "HOL-Library.AList"
begin

section \<open>Data model (db/models.py, schema/device.py, schema/transaction.py)\<close>

text \<open>
  Identifiers are UUIDs in the source; only their equality matters, so they are natural
  numbers here. Timestamps (\<open>datetime.utcnow()\<close>) are natural numbers as well.
\<close>

type_synonym uuid = nat
type_synonym datetime = nat

datatype DeviceType = ACCESS_CONTROLLER | FACE_READER | ANPR

datatype DeviceStatus = INACTIVE | ACTIVE

record Device =
  d_id :: uuid
  d_name :: string
  d_device_type :: DeviceType
  d_ip_address :: string
  d_status :: DeviceStatus
  d_created_at :: datetime
  d_updated_at :: datetime

text \<open>
  A payload is a Python dict from string keys to JSON values; the values this program
  stores are integers, strings and floats rounded to two decimals. A rounded float is
  kept as its number of hundredths (\<open>Hundredths 87\<close> is \<open>0.87\<close>).
\<close>

datatype json = JInt int | JStr string | Hundredths nat

type_synonym payload_dict = "(string \<times> json) list"

record Transaction =
  transaction_id :: uuid
  device_id :: uuid
  timestamp :: datetime
  username :: string
  event_type :: string
  payload :: "payload_dict option"
  t_created_at :: datetime

record DeviceCreate =
  dc_name :: string
  dc_device_type :: string
  dc_ip_address :: string

record TransactionCreate =
  tc_username :: string
  tc_event_type :: string
  tc_payload :: "payload_dict option"
  tc_device_id :: uuid

text \<open>The two tables of the record store.\<close>

record database =
  devices :: "Device list"
  transactions :: "Transaction list"

text \<open>
  Exceptions: \<open>ValueError\<close> with its message and SQLAlchemy's \<open>IntegrityError\<close>,
  raised by the services; \<open>KeyError\<close>, raised by \<open>del\<close> on a missing dict key; and
  \<open>Exception\<close> for any other error the environment raises.
\<close>

datatype error = ValueError string | IntegrityError | KeyError | Exception string

section \<open>The random source and string formatting\<close>

text \<open>
  Every call of the \<open>random\<close> module is given its draw as an explicit natural number,
  reduced into the range of the call: \<open>random.randint(a, b)\<close> is any integer of
  \<open>a..b\<close>, \<open>random.choice(xs)\<close> any element of \<open>xs\<close>. Every population this
  program chooses from is a non-empty literal.
\<close>

definition randint :: "nat \<Rightarrow> nat \<Rightarrow> nat \<Rightarrow> nat" where
  "randint a b r = a + r mod (b - a + 1)"

definition choice :: "'a list \<Rightarrow> nat \<Rightarrow> 'a" where
  "choice xs r = xs ! (r mod length xs)"

text \<open>\<open>random.choices(xs, k=k)\<close>: \<open>k\<close> independent draws with replacement.\<close>

definition choices :: "'a list \<Rightarrow> nat \<Rightarrow> (nat \<Rightarrow> nat) \<Rightarrow> 'a list" where
  "choices xs k rs = map (\<lambda>i. choice xs (rs i)) [0..<k]"

text \<open>
  \<open>round(random.uniform(lo, hi), 2)\<close> with \<open>lo\<close>, \<open>hi\<close> given in hundredths: some
  multiple of 0.01 between the bounds.
\<close>

definition uniform_round2 :: "nat \<Rightarrow> nat \<Rightarrow> nat \<Rightarrow> json" where
  "uniform_round2 lo hi r = Hundredths (randint lo hi r)"

definition digit_char :: "nat \<Rightarrow> char" where
  "digit_char n = ''0123456789'' ! (n mod 10)"

text \<open>The decimal rendering of a non-negative integer in an f-string.\<close>

fun str_nat :: "nat \<Rightarrow> string" where
  "str_nat n = (if n < 10 then [digit_char n] else str_nat (n div 10) @ [digit_char n])"

declare str_nat.simps [simp del]

text \<open>The draws of one call of \<open>generate_transaction_payload\<close>, in source order.\<close>

record payload_draws =
  r_confidence :: nat
  r_processing_time :: nat
  r_card_hi :: nat
  r_card_lo :: nat
  r_reader :: nat
  r_face :: nat
  r_image_quality :: nat
  r_plate_chars :: "nat \<Rightarrow> nat"
  r_plate_nums :: "nat \<Rightarrow> nat"
  r_camera :: nat
  r_vehicle :: nat

section \<open>Event content producer (services/device\_worker.py)\<close>

definition SAMPLE_USERNAMES :: "string list" where
  "SAMPLE_USERNAMES =
     [''john.doe'', ''jane.smith'', ''bob.jones'', ''alice.williams'',
      ''charlie.brown'', ''diana.prince'', ''evan.davis'', ''fiona.garcia'']"

definition EVENT_TYPES :: "DeviceType \<rightharpoonup> string list" where
  "EVENT_TYPES =
     [ACCESS_CONTROLLER \<mapsto>
        [''access_granted'', ''access_denied'', ''door_opened'', ''door_closed'',
         ''access_timeout''],
      FACE_READER \<mapsto>
        [''face_match'', ''face_no_match'', ''face_detected'', ''multiple_faces'',
         ''face_recognition_error''],
      ANPR \<mapsto>
        [''plate_read'', ''plate_match'', ''plate_no_match'', ''invalid_plate'',
         ''vehicle_detected'']]"

definition plate_chars :: string where
  "plate_chars = ''ABCDEFGHIJKLMNOPQRSTUVWXYZ''"

definition plate_nums :: string where
  "plate_nums = ''0123456789''"

definition vehicle_types :: "string list" where
  "vehicle_types = [''car'', ''truck'', ''motorcycle'', ''van'']"

text \<open>
  \<open>payload[k] = v\<close> on a dict is \<open>AList.update\<close>: a new key goes to the end, an
  existing key keeps its place.
\<close>

definition generate_transaction_payload ::
  "payload_draws \<Rightarrow> DeviceType \<Rightarrow> string \<Rightarrow> payload_dict" where
  "generate_transaction_payload r device_type ev =
     (let payload0 =
            [(''confidence'', uniform_round2 75 99 (r_confidence r)),
             (''processing_time_ms'', JInt (int (randint 50 500 (r_processing_time r))))]
      in case device_type of
           ACCESS_CONTROLLER \<Rightarrow>
             AList.update ''reader_id''
               (JStr (''READER-'' @ str_nat (randint 1 10 (r_reader r))))
               (AList.update ''card_number''
                  (JStr (str_nat (randint 1000 9999 (r_card_hi r)) @ ''-'' @
                         str_nat (randint 1000 9999 (r_card_lo r))))
                  payload0)
         | FACE_READER \<Rightarrow>
             AList.update ''image_quality'' (uniform_round2 60 100 (r_image_quality r))
               (AList.update ''face_id''
                  (JStr (''FACE-'' @ str_nat (randint 1000 9999 (r_face r))))
                  payload0)
         | ANPR \<Rightarrow>
             AList.update ''vehicle_type'' (JStr (choice vehicle_types (r_vehicle r)))
               (AList.update ''camera_id''
                  (JStr (''CAM-'' @ str_nat (randint 1 5 (r_camera r))))
                  (AList.update ''plate_number''
                     (JStr (choices plate_chars 3 (r_plate_chars r) @ ''-'' @
                            choices plate_nums 4 (r_plate_nums r)))
                     payload0)))"

subsection \<open>The patterns of the specification\<close>

definition is_upper :: "char \<Rightarrow> bool" where
  "is_upper c = (c \<in> set ''ABCDEFGHIJKLMNOPQRSTUVWXYZ'')"

definition is_digit :: "char \<Rightarrow> bool" where
  "is_digit c = (c \<in> set ''0123456789'')"

text \<open>The regular expression \<open>[A-Z]{3}-[0-9]{4}\<close>, matched against the whole string.\<close>

fun matches_plate :: "string \<Rightarrow> bool" where
  "matches_plate [a, b, c, h, w, x, y, z] =
     (is_upper a \<and> is_upper b \<and> is_upper c \<and> h = CHR ''-'' \<and>
      is_digit w \<and> is_digit x \<and> is_digit y \<and> is_digit z)"
| "matches_plate _ = False"

text \<open>The regular expression \<open>CAM-[1-5]\<close>, matched against the whole string.\<close>

fun matches_camera :: "string \<Rightarrow> bool" where
  "matches_camera [c, a, m, h, n] =
     (c = CHR ''C'' \<and> a = CHR ''A'' \<and> m = CHR ''M'' \<and> h = CHR ''-'' \<and> n \<in> set ''12345'')"
| "matches_camera _ = False"

section \<open>Device service (services/device\_service.py)\<close>

text \<open>
  What the store and the clock contribute to one service call: the fresh primary key
  (\<open>uuid.uuid4\<close>), the clock reading, and whether the store rejects the commit for a
  reason of its own. A commit is rejected as well when the primary key is already taken.
  \<open>db.add\<close>, \<open>db.commit\<close> and, on \<open>IntegrityError\<close>, \<open>db.rollback\<close> are one
  step: either the row is in the table afterwards, or the table is as before.
\<close>

record store_env =
  new_id :: uuid
  now :: datetime
  commit_fails :: bool

definition get_all_devices :: "database \<Rightarrow> Device list" where
  "get_all_devices db = devices db"

definition get_device_by_id :: "database \<Rightarrow> uuid \<Rightarrow> Device option" where
  "get_device_by_id db did = find (\<lambda>x. d_id x = did) (devices db)"

definition get_active_devices :: "database \<Rightarrow> Device list" where
  "get_active_devices db = filter (\<lambda>x. d_status x = ACTIVE) (devices db)"

text \<open>
  \<open>str.upper()\<close> on a string held as UTF-8 bytes. The letters a to z go to A to Z.
  Ten characters outside ASCII have an upper case made of ASCII letters only (U+00DF,
  U+0131, U+017F and the ligatures U+FB00 to U+FB06); they are replaced by it. Every
  other character outside ASCII has an upper case outside ASCII, and its bytes are left
  as they are: the result is then no enum member name, here as in Python.
\<close>

definition upper_char :: "char \<Rightarrow> char" where
  "upper_char c =
     (case map_of (zip ''abcdefghijklmnopqrstuvwxyz'' ''ABCDEFGHIJKLMNOPQRSTUVWXYZ'') c of
        Some u \<Rightarrow> u
      | None \<Rightarrow> c)"

definition ligatures :: "(string \<times> string) list" where
  "ligatures =
     [([CHR 0x80], ''FF''), ([CHR 0x81], ''FI''), ([CHR 0x82], ''FL''),
      ([CHR 0x83], ''FFI''), ([CHR 0x84], ''FFL''), ([CHR 0x85], ''ST''),
      ([CHR 0x86], ''ST'')]"

fun upper :: "string \<Rightarrow> string" where
  "upper [] = []"
| "upper (a # cs) =
     (if a = CHR 0xC3 \<and> take 1 cs = [CHR 0x9F] then ''SS'' @ upper (drop 1 cs)
      else if a = CHR 0xC4 \<and> take 1 cs = [CHR 0xB1] then ''I'' @ upper (drop 1 cs)
      else if a = CHR 0xC5 \<and> take 1 cs = [CHR 0xBF] then ''S'' @ upper (drop 1 cs)
      else if a = CHR 0xEF \<and> take 1 cs = [CHR 0xAC]
      then (case map_of ligatures (take 1 (drop 1 cs)) of
              Some u \<Rightarrow> u @ upper (drop 2 cs)
            | None \<Rightarrow> a # upper cs)
      else upper_char a # upper cs)"

text \<open>\<open>DeviceType[name]\<close>: lookup of an enum member by its name; \<open>None\<close> is KeyError.\<close>

definition DeviceType_by_name :: "string \<Rightarrow> DeviceType option" where
  "DeviceType_by_name n =
     (if n = ''ACCESS_CONTROLLER'' then Some ACCESS_CONTROLLER
      else if n = ''FACE_READER'' then Some FACE_READER
      else if n = ''ANPR'' then Some ANPR
      else None)"

definition create_device ::
  "store_env \<Rightarrow> database \<Rightarrow> DeviceCreate \<Rightarrow> (error + Device) \<times> database" where
  "create_device e db device_data =
     (case DeviceType_by_name (upper (dc_device_type device_data)) of
        None \<Rightarrow>
          (Inl (ValueError
                  ''Invalid device_type. Must be one of: ['access_controller', 'face_reader', 'anpr']''),
           db)
      | Some device_type_enum \<Rightarrow>
          (let db_device =
                 \<lparr>d_id = new_id e,
                  d_name = dc_name device_data,
                  d_device_type = device_type_enum,
                  d_ip_address = dc_ip_address device_data,
                  d_status = INACTIVE,
                  d_created_at = now e,
                  d_updated_at = now e\<rparr>
           in if commit_fails e \<or> new_id e \<in> d_id ` set (devices db)
              then (Inl IntegrityError, db)
              else (Inr db_device, db\<lparr>devices := devices db @ [db_device]\<rparr>)))"

definition toggle_device_status ::
  "store_env \<Rightarrow> database \<Rightarrow> uuid \<Rightarrow> (error + Device option) \<times> database" where
  "toggle_device_status e db did =
     (case get_device_by_id db did of
        None \<Rightarrow> (Inr None, db)
      | Some db_device \<Rightarrow>
          (let new_status = (if d_status db_device = ACTIVE then INACTIVE else ACTIVE);
               write = (\<lambda>x. x\<lparr>d_status := new_status, d_updated_at := now e\<rparr>)
           in if commit_fails e
              then (Inl IntegrityError, db)
              else (Inr (Some (write db_device)),
                    db\<lparr>devices :=
                         map (\<lambda>x. if d_id x = did then write x else x) (devices db)\<rparr>)))"

section \<open>Transaction emitter (services/transaction\_service.py)\<close>

definition create_transaction ::
  "store_env \<Rightarrow> database \<Rightarrow> TransactionCreate \<Rightarrow> (error + Transaction) \<times> database" where
  "create_transaction e db transaction_data =
     (case find (\<lambda>x. d_id x = tc_device_id transaction_data) (devices db) of
        None \<Rightarrow>
          (Inl (ValueError (''Device with id '' @ str_nat (tc_device_id transaction_data) @
                           '' does not exist'')), db)
      | Some device \<Rightarrow>
          (let db_transaction =
                 \<lparr>transaction_id = new_id e,
                  device_id = tc_device_id transaction_data,
                  timestamp = now e,
                  username = tc_username transaction_data,
                  event_type = tc_event_type transaction_data,
                  payload = tc_payload transaction_data,
                  t_created_at = now e\<rparr>
           in if commit_fails e \<or> new_id e \<in> transaction_id ` set (transactions db)
              then (Inl IntegrityError, db)
              else (Inr db_transaction,
                    db\<lparr>transactions := transactions db @ [db_transaction]\<rparr>)))"

section \<open>Worker lifecycle manager (services/device\_worker.py)\<close>

text \<open>
  An \<open>asyncio.Task\<close> running the coroutine \<open>device_worker\<close> is kept in a task table;
  a task handle is its index there. The coroutine has one suspension point, the
  \<open>await asyncio.sleep\<close> at the head of its loop, so a task is in one of three states:
  created and not yet run, suspended in the sleep, or finished. It finishes only by the
  \<open>CancelledError\<close> it re-raises. \<open>must_cancel\<close> records that \<open>Task.cancel()\<close>
  was called: the next time the event loop runs the task, \<open>CancelledError\<close> is raised at
  the point where the coroutine is suspended.
\<close>

datatype task_state = Created | Sleeping | Finished

record Task =
  w_device_id :: uuid
  w_device_name :: string
  w_device_type :: DeviceType
  task_state :: task_state
  must_cancel :: bool

type_synonym task_ref = nat

datatype level = INFO | WARNING | ERROR

text \<open>
  The process state: the module-level dict \<open>active_workers\<close> (insertion-ordered, so an
  association list), the task table, the record store and the log (message texts without
  their interpolated values).
\<close>

record system =
  active_workers :: "(uuid \<times> task_ref) list"
  tasks :: "Task list"
  store :: database
  logs :: "(level \<times> string) list"

definition logger :: "level \<Rightarrow> string \<Rightarrow> system \<Rightarrow> system" where
  "logger l msg s = s\<lparr>logs := logs s @ [(l, msg)]\<rparr>"

text \<open>The draws of one loop iteration of \<open>device_worker\<close>.\<close>

record iteration_env =
  r_username :: nat
  r_event_type :: nat
  r_payload :: payload_draws
  r_store :: store_env

text \<open>
  Lines 108 to 122: the username, the event label (with the fallback of
  \<open>EVENT_TYPES.get\<close>), the payload and the \<open>TransactionCreate\<close> built from them.
\<close>

definition next_transaction_data :: "iteration_env \<Rightarrow> Task \<Rightarrow> TransactionCreate" where
  "next_transaction_data e t =
     (let usr = choice SAMPLE_USERNAMES (r_username e);
          ev = choice (case EVENT_TYPES (w_device_type t) of
                         Some evs \<Rightarrow> evs
                       | None \<Rightarrow> [''generic_event''])
                 (r_event_type e);
          pl = generate_transaction_payload (r_payload e) (w_device_type t) ev
      in \<lparr>tc_username = usr, tc_event_type = ev, tc_payload = Some pl,
          tc_device_id = w_device_id t\<rparr>)"

text \<open>
  Lines 108 to 134: the body of the loop after the sleep. Every exception of the
  emission is caught by \<open>except Exception\<close> and logged.
\<close>

definition device_worker_iteration :: "iteration_env \<Rightarrow> Task \<Rightarrow> system \<Rightarrow> system" where
  "device_worker_iteration e t s =
     (case create_transaction (r_store e) (store s) (next_transaction_data e t) of
        (Inr transaction, db') \<Rightarrow> logger INFO ''Generated transaction'' (s\<lparr>store := db'\<rparr>)
      | (Inl err, db') \<Rightarrow>
          logger ERROR ''Error creating transaction for device'' (s\<lparr>store := db'\<rparr>))"

definition set_task :: "task_ref \<Rightarrow> Task \<Rightarrow> system \<Rightarrow> system" where
  "set_task k t s = s\<lparr>tasks := (tasks s)[k := t]\<rparr>"

text \<open>
  One run of task \<open>k\<close> by the event loop, from where the coroutine is suspended to its
  next suspension or its end. A finished task is never run again. A cancellation
  requested before the first run ends the coroutine before any line of its body; one
  requested during the sleep is raised there, logged by the handler and re-raised.
  Otherwise the coroutine logs its start and sleeps, or wakes up, does one emission and
  sleeps again.
\<close>

definition run_task :: "iteration_env \<Rightarrow> task_ref \<Rightarrow> system \<Rightarrow> system" where
  "run_task e k s =
     (if length (tasks s) \<le> k then s
      else
        (let t = tasks s ! k in
         case task_state t of
           Finished \<Rightarrow> s
         | Created \<Rightarrow>
             if must_cancel t then set_task k (t\<lparr>task_state := Finished\<rparr>) s
             else set_task k (t\<lparr>task_state := Sleeping\<rparr>)
                    (logger INFO ''Starting worker for device'' s)
         | Sleeping \<Rightarrow>
             if must_cancel t
             then set_task k (t\<lparr>task_state := Finished\<rparr>)
                    (logger INFO ''Worker for device stopped'' s)
             else device_worker_iteration e t s))"

text \<open>
  What the event loop may run while a caller is suspended in an \<open>await\<close>. Scheduling is
  cooperative: a run is not interrupted, so between two suspension points nothing else
  runs. Besides the worker tasks, the loop runs the lifecycle calls of other callers
  (there is no lock around the dict): a \<open>start_device_worker\<close>, which has no
  suspension point and is one step, and the two halves of another
  \<open>stop_device_worker\<close>, up to its \<open>await\<close> and after it.
\<close>

datatype step =
    Run iteration_env task_ref
  | Start uuid string DeviceType
  | Stop_begin uuid
  | Stop_end uuid task_ref

type_synonym schedule = "step list"

fun is_run :: "step \<Rightarrow> bool" where
  "is_run (Run e k) = True"
| "is_run _ = False"

text \<open>Only worker tasks run: no lifecycle call of another caller overlaps.\<close>

definition workers_only :: "schedule \<Rightarrow> bool" where
  "workers_only sched = list_all is_run sched"

definition task_done :: "task_ref \<Rightarrow> system \<Rightarrow> bool" where
  "task_done k s = (k < length (tasks s) \<and> task_state (tasks s ! k) = Finished)"

text \<open>\<open>task.cancel()\<close>: no effect on a finished task, a cancellation request otherwise.\<close>

definition cancel :: "task_ref \<Rightarrow> system \<Rightarrow> system" where
  "cancel k s =
     (if k < length (tasks s) \<and> task_state (tasks s ! k) \<noteq> Finished
      then set_task k ((tasks s ! k)\<lparr>must_cancel := True\<rparr>) s
      else s)"

text \<open>\<open>asyncio.create_task\<close>: a new task in the table, not yet run.\<close>

definition create_task :: "uuid \<Rightarrow> string \<Rightarrow> DeviceType \<Rightarrow> system \<Rightarrow> task_ref \<times> system" where
  "create_task did nm ty s =
     (length (tasks s),
      s\<lparr>tasks := tasks s @
           [\<lparr>w_device_id = did, w_device_name = nm, w_device_type = ty,
             task_state = Created, must_cancel = False\<rparr>]\<rparr>)"

definition start_device_worker ::
  "uuid \<Rightarrow> string \<Rightarrow> DeviceType \<Rightarrow> system \<Rightarrow> bool \<times> system" where
  "start_device_worker did nm ty s =
     (if did \<in> fst ` set (active_workers s)
      then (False, logger WARNING ''Worker for device is already running'' s)
      else
        (let (task, s1) = create_task did nm ty s;
             s2 = s1\<lparr>active_workers := AList.update did task (active_workers s1)\<rparr>
         in (True, logger INFO ''Started worker for device'' s2)))"

text \<open>
  One step of the event loop. \<open>Stop_begin d\<close> is lines 175 to 181 of another caller's
  stop: the lookup and the \<open>cancel\<close>. \<open>Stop_end d k\<close> is its line 189, once the task
  \<open>k\<close> it awaited is finished: the \<open>del\<close>, which raises \<open>KeyError\<close> in that caller
  and changes nothing when the key is gone.
\<close>

fun run_step :: "step \<Rightarrow> system \<Rightarrow> system" where
  "run_step (Run e k) s = run_task e k s"
| "run_step (Start did nm ty) s = snd (start_device_worker did nm ty s)"
| "run_step (Stop_begin did) s =
     (case map_of (active_workers s) did of
        None \<Rightarrow> logger WARNING ''No worker found for device'' s
      | Some task \<Rightarrow> cancel task s)"
| "run_step (Stop_end did k) s =
     (if task_done k s \<and> did \<in> fst ` set (active_workers s)
      then logger INFO ''Stopped worker for device''
             (s\<lparr>active_workers := AList.delete did (active_workers s)\<rparr>)
      else s)"

definition run_schedule :: "schedule \<Rightarrow> system \<Rightarrow> system" where
  "run_schedule sched s = fold run_step sched s"

text \<open>
  \<open>await task\<close>: the caller is suspended and the event loop runs \<open>sched\<close>; the caller
  resumes only when the task is finished. \<open>None\<close>: after the runs of \<open>sched\<close> the
  task is not finished, the caller is still suspended.
\<close>

definition await_task :: "schedule \<Rightarrow> task_ref \<Rightarrow> system \<Rightarrow> system option" where
  "await_task sched k s =
     (let s' = run_schedule sched s in if task_done k s' then Some s' else None)"

text \<open>
  \<open>stop_device_worker\<close>, with the runs of the event loop during its \<open>await task\<close>
  as a parameter. \<open>None\<close>: the call has not returned (see \<open>await_task\<close>).
\<close>

definition stop_device_worker ::
  "schedule \<Rightarrow> uuid \<Rightarrow> system \<Rightarrow> ((error + bool) \<times> system) option" where
  "stop_device_worker sched did s =
     (case map_of (active_workers s) did of
        None \<Rightarrow> Some (Inr False, logger WARNING ''No worker found for device'' s)
      | Some task \<Rightarrow>
          (case await_task sched task (cancel task s) of
             None \<Rightarrow> None
           | Some s1 \<Rightarrow>
               if did \<in> fst ` set (active_workers s1)
               then Some (Inr True,
                          logger INFO ''Stopped worker for device''
                            (s1\<lparr>active_workers := AList.delete did (active_workers s1)\<rparr>))
               else Some (Inl KeyError, s1)))"


definition is_worker_active :: "uuid \<Rightarrow> system \<Rightarrow> bool" where
  "is_worker_active did s = (did \<in> fst ` set (active_workers s))"



text \<open>
  The invariant of the registry: a dict has each key once; the task registered for a
  device runs that device's loop; and a task that is not finished is registered.
\<close>

definition registry_ok :: "system \<Rightarrow> bool" where
  "registry_ok s =
     (distinct (map fst (active_workers s)) \<and>
      (\<forall>p \<in> set (active_workers s).
         snd p < length (tasks s) \<and> w_device_id (tasks s ! snd p) = fst p) \<and>
      (\<forall>k \<in> set [0..<length (tasks s)].
         task_state (tasks s ! k) \<noteq> Finished \<longrightarrow>
         (w_device_id (tasks s ! k), k) \<in> set (active_workers s)))"



section \<open>Startup reconciler (main.py, lifespan)\<close>

text \<open>
  The errors the environment may raise during startup: in \<open>init_db()\<close>, in the query
  for the active devices, and in the body of the loop for a given device. The body can
  raise before \<open>start_device_worker\<close> has had any effect (evaluating the arguments,
  \<open>asyncio.create_task\<close>), or after the worker is registered (the \<open>logger.info\<close> of
  main.py line 59; a raise in the one of device\_worker.py line 161 leaves the same dict
  and task table and one log line less).
\<close>

datatype raise_point = Before_registration | After_registration

record startup_faults =
  init_db_raises :: "error option"
  query_raises :: "error option"
  start_raises :: "Device \<Rightarrow> (raise_point \<times> error) option"

text \<open>The \<open>for\<close> loop of lines 57 to 59; an exception leaves the loop.\<close>

fun restore_workers ::
  "(Device \<Rightarrow> (raise_point \<times> error) option) \<Rightarrow> Device list \<Rightarrow> system \<Rightarrow>
     (error + unit) \<times> system" where
  "restore_workers raises [] s = (Inr (), s)"
| "restore_workers raises (device # rest) s =
     (let started = snd (start_device_worker (d_id device) (d_name device)
                           (d_device_type device) s)
      in case raises device of
           Some (Before_registration, err) \<Rightarrow> (Inl err, s)
         | Some (After_registration, err) \<Rightarrow> (Inl err, started)
         | None \<Rightarrow>
             restore_workers raises rest
               (logger INFO ''Restored worker for device'' started))"

text \<open>
  The startup half of \<open>lifespan\<close>, up to the \<open>yield\<close>. An error of \<open>init_db()\<close> is
  logged and re-raised; the rest runs inside one \<open>try\<close> whose handler logs the error.
\<close>

definition lifespan_startup :: "startup_faults \<Rightarrow> system \<Rightarrow> (error + unit) \<times> system" where
  "lifespan_startup f s =
     (let s0 = logger INFO ''Application startup: Initializing database...'' s in
      case init_db_raises f of
        Some err \<Rightarrow> (Inl err, logger ERROR ''Error initializing database'' s0)
      | None \<Rightarrow>
          (let s1 = logger INFO ''Starting device workers...''
                      (logger INFO ''Database tables initialized successfully'' s0)
           in case query_raises f of
                Some err \<Rightarrow> (Inr (), logger ERROR ''Error during startup initialization'' s1)
              | None \<Rightarrow>
                  (let active_devices = get_active_devices (store s1) in
                   if active_devices \<noteq> []
                   then
                     (case restore_workers (start_raises f) active_devices
                             (logger INFO ''Found active device(s). Starting workers...'' s1) of
                        (Inl err, s2) \<Rightarrow>
                          (Inr (), logger ERROR ''Error during startup initialization'' s2)
                      | (Inr _, s2) \<Rightarrow>
                          (Inr (), logger INFO ''Successfully started device worker(s)'' s2))
                   else (Inr (), logger INFO ''No active devices found. No workers to start.'' s1))))"

section \<open>Example states\<close>

text \<open>
  Two active devices; the process right after start, with no worker; one set of draws;
  and a process whose only worker belongs to a device that is no longer in the store.
\<close>

definition gate :: Device where
  "gate = \<lparr>d_id = 1, d_name = ''gate'', d_device_type = ANPR, d_ip_address = ''10.0.0.1'',
           d_status = ACTIVE, d_created_at = 0, d_updated_at = 0\<rparr>"

definition lobby :: Device where
  "lobby = \<lparr>d_id = 2, d_name = ''lobby'', d_device_type = FACE_READER,
            d_ip_address = ''10.0.0.2'', d_status = ACTIVE, d_created_at = 0,
            d_updated_at = 0\<rparr>"

definition boot :: system where
  "boot = \<lparr>active_workers = [], tasks = [],
           store = \<lparr>devices = [gate, lobby], transactions = []\<rparr>, logs = []\<rparr>"

definition draws0 :: iteration_env where
  "draws0 =
     \<lparr>r_username = 0, r_event_type = 0,
      r_payload =
        \<lparr>r_confidence = 0, r_processing_time = 0, r_card_hi = 0, r_card_lo = 0,
         r_reader = 0, r_face = 0, r_image_quality = 0, r_plate_chars = (\<lambda>i. i),
         r_plate_nums = (\<lambda>i. i), r_camera = 0, r_vehicle = 0\<rparr>,
      r_store = \<lparr>new_id = 100, now = 5, commit_fails = False\<rparr>\<rparr>"

definition orphan :: system where
  "orphan = \<lparr>active_workers = [(3, 0)],
             tasks = [\<lparr>w_device_id = 3, w_device_name = ''old'', w_device_type = ANPR,
                       task_state = Sleeping, must_cancel = False\<rparr>],
             store = \<lparr>devices = [gate, lobby], transactions = []\<rparr>, logs = []\<rparr>"

text \<open>
  A process with a sleeping worker for \<open>gate\<close> and a worker for \<open>lobby\<close> that has
  not run yet; and a startup in which the loop body raises for \<open>gate\<close>.
\<close>

definition running :: system where
  "running = \<lparr>active_workers = [(1, 0), (2, 1)],
              tasks = [\<lparr>w_device_id = 1, w_device_name = ''gate'', w_device_type = ANPR,
                        task_state = Sleeping, must_cancel = False\<rparr>,
                       \<lparr>w_device_id = 2, w_device_name = ''lobby'',
                        w_device_type = FACE_READER, task_state = Created,
                        must_cancel = False\<rparr>],
              store = \<lparr>devices = [gate, lobby], transactions = []\<rparr>, logs = []\<rparr>"

definition gate_fails :: startup_faults where
  "gate_fails = \<lparr>init_db_raises = None, query_raises = None,
                 start_raises = [gate \<mapsto> (Before_registration, Exception ''boom'')]\<rparr>"

definition gate_fails_late :: startup_faults where
  "gate_fails_late = \<lparr>init_db_raises = None, query_raises = None,
                      start_raises = [gate \<mapsto> (After_registration, Exception ''boom'')]\<rparr>"



section \<open>Properties of the event content producer\<close>

lemma choice_in_set: "xs \<noteq> [] \<Longrightarrow> choice xs r \<in> set xs"
  by (simp add: choice_def)

lemma choices_3: "choices xs 3 rs = [choice xs (rs 0), choice xs (rs 1), choice xs (rs 2)]"
proof -
  have "[0..<3] = [0, 1, 2::nat]" by (simp add: upt_rec)
  then show ?thesis by (simp add: choices_def)
qed

lemma choices_4:
  "choices xs 4 rs = [choice xs (rs 0), choice xs (rs 1), choice xs (rs 2), choice xs (rs 3)]"
proof -
  have "[0..<4] = [0, 1, 2, 3::nat]" by (simp add: upt_rec)
  then show ?thesis by (simp add: choices_def)
qed

lemma str_nat_digit: "n < 10 \<Longrightarrow> str_nat n = [digit_char n]"
  by (subst str_nat.simps) simp

lemma plate_char_upper: "is_upper (choice plate_chars r)"
  unfolding is_upper_def using choice_in_set [of plate_chars r]
  by (simp add: plate_chars_def)

lemma plate_num_digit: "is_digit (choice plate_nums r)"
  unfolding is_digit_def using choice_in_set [of plate_nums r]
  by (simp add: plate_nums_def)

lemma randint_1_5: "randint 1 5 r \<in> {1, 2, 3, 4, 5}"
  unfolding randint_def by (simp; presburger)

lemma camera_str: "matches_camera (''CAM-'' @ str_nat (randint 1 5 r))"
  using randint_1_5 [of r]
  by (auto simp: str_nat_digit digit_char_def)

text \<open>
  Claim C8. For category anpr, whatever the random draws and the event label, the payload
  holds under \<open>plate_number\<close> a string matching \<open>[A-Z]{3}-[0-9]{4}\<close>, under
  \<open>camera_id\<close> a string matching \<open>CAM-[1-5]\<close>, and under \<open>vehicle_type\<close> one of
  car, truck, motorcycle, van.
\<close>

theorem anpr_payload_format:
  "\<exists>plate cam veh.
     map_of (generate_transaction_payload r ANPR ev) ''plate_number'' = Some (JStr plate) \<and>
     matches_plate plate \<and>
     map_of (generate_transaction_payload r ANPR ev) ''camera_id'' = Some (JStr cam) \<and>
     matches_camera cam \<and>
     map_of (generate_transaction_payload r ANPR ev) ''vehicle_type'' = Some (JStr veh) \<and>
     veh \<in> {''car'', ''truck'', ''motorcycle'', ''van''}"
proof -
  have veh: "choice vehicle_types (r_vehicle r) \<in> {''car'', ''truck'', ''motorcycle'', ''van''}"
    using choice_in_set [of vehicle_types "r_vehicle r"] by (simp add: vehicle_types_def)
  have plate: "matches_plate (choices plate_chars 3 (r_plate_chars r) @ ''-'' @
                              choices plate_nums 4 (r_plate_nums r))"
    by (simp add: choices_3 choices_4 plate_char_upper plate_num_digit)
  show ?thesis
    using veh plate camera_str [of "r_camera r"]
    by (simp add: generate_transaction_payload_def update_conv')
qed

section \<open>Properties of the store services\<close>

lemma find_absent: "did \<notin> d_id ` set xs \<Longrightarrow> find (\<lambda>x. d_id x = did) xs = None"
  by (induction xs) auto

lemma find_append_absent:
  "find P xs = None \<Longrightarrow> find P (xs @ ys) = find P ys"
  by (induction xs) (auto split: if_splits)

lemma find_map_write:
  assumes "\<And>x. d_id (w x) = d_id x"
  shows "find (\<lambda>x. d_id x = did) (map (\<lambda>x. if d_id x = did then w x else x) xs) =
         map_option w (find (\<lambda>x. d_id x = did) xs)"
  using assms by (induction xs) auto

lemma toggle_once:
  assumes "get_device_by_id db did = Some dev" "\<not> commit_fails e"
  shows "\<exists>dev' db'. toggle_device_status e db did = (Inr (Some dev'), db') \<and>
           d_status dev' = (if d_status dev = ACTIVE then INACTIVE else ACTIVE) \<and>
           get_device_by_id db' did = Some dev'"
  using assms
  by (simp add: toggle_device_status_def get_device_by_id_def Let_def find_map_write)

text \<open>
  Claim C7. When the device id of the transaction data is absent from the devices table,
  \<open>create_transaction\<close> fails with the error of the source for a missing device
  (\<open>ValueError\<close>, "Device with id ... does not exist", the NotFoundError of the
  specification), and the store it leaves is the store it was given: no row is inserted.
\<close>

theorem create_transaction_absent_device:
  assumes "tc_device_id td \<notin> d_id ` set (devices db)"
  shows "create_transaction e db td =
           (Inl (ValueError (''Device with id '' @ str_nat (tc_device_id td) @
                             '' does not exist'')), db)"
  using find_absent [OF assms] by (simp add: create_transaction_def)

theorem create_transaction_absent_device_witness:
  "3 \<notin> d_id ` set (devices (store boot)) \<and>
   create_transaction (r_store draws0) (store boot)
     \<lparr>tc_username = ''john.doe'', tc_event_type = ''plate_read'', tc_payload = None,
      tc_device_id = 3\<rparr> =
   (Inl (ValueError ''Device with id 3 does not exist''), store boot)"
proof -
  have absent: "tc_device_id \<lparr>tc_username = ''john.doe'', tc_event_type = ''plate_read'',
                   tc_payload = None, tc_device_id = 3\<rparr> \<notin> d_id ` set (devices (store boot))"
    by (simp add: boot_def gate_def lobby_def)
  from create_transaction_absent_device [OF absent, of "r_store draws0"] absent
  show ?thesis by (simp add: str_nat_digit digit_char_def)
qed

text \<open>
  Claim C9. A device that \<open>create_device\<close> creates has status \<open>INACTIVE\<close>, whatever
  the creation data (which has a name, a device type and an address, and no status): the
  returned device is inactive, it is the one row added to the devices table, and a lookup
  by its id finds it.
\<close>

theorem create_device_inactive:
  assumes "create_device e db device_data = (Inr dev, db')"
  shows "d_status dev = INACTIVE \<and> devices db' = devices db @ [dev] \<and>
         get_device_by_id db' (d_id dev) = Some dev"
proof -
  from assms obtain ty where ty: "DeviceType_by_name (upper (dc_device_type device_data)) = Some ty"
    by (auto simp: create_device_def split: option.splits)
  from assms ty have ok: "\<not> commit_fails e" "new_id e \<notin> d_id ` set (devices db)"
    by (auto simp: create_device_def Let_def split: if_splits)
  from assms ty ok have dev: "dev = \<lparr>d_id = new_id e, d_name = dc_name device_data,
        d_device_type = ty, d_ip_address = dc_ip_address device_data, d_status = INACTIVE,
        d_created_at = now e, d_updated_at = now e\<rparr>"
    and db': "db' = db\<lparr>devices := devices db @ [dev]\<rparr>"
    by (auto simp: create_device_def Let_def)
  have "find (\<lambda>x. d_id x = d_id dev) (devices db @ [dev]) = Some dev"
    using find_absent [of "d_id dev" "devices db"] ok dev by (simp add: find_append_absent)
  then show ?thesis using dev db' by (simp add: get_device_by_id_def)
qed

theorem create_device_inactive_witness:
  "\<exists>dev db'.
     create_device (r_store draws0) (store boot)
       \<lparr>dc_name = ''cam'', dc_device_type = ''anpr'', dc_ip_address = ''10.0.0.9''\<rparr> =
     (Inr dev, db') \<and>
     d_name dev = ''cam'' \<and> d_status dev = INACTIVE \<and> devices db' = [gate, lobby, dev]"
proof -
  have run: "create_device (r_store draws0) (store boot)
       \<lparr>dc_name = ''cam'', dc_device_type = ''anpr'', dc_ip_address = ''10.0.0.9''\<rparr> =
     (Inr \<lparr>d_id = 100, d_name = ''cam'', d_device_type = ANPR, d_ip_address = ''10.0.0.9'',
           d_status = INACTIVE, d_created_at = 5, d_updated_at = 5\<rparr>,
      \<lparr>devices = [gate, lobby,
                   \<lparr>d_id = 100, d_name = ''cam'', d_device_type = ANPR,
                    d_ip_address = ''10.0.0.9'', d_status = INACTIVE, d_created_at = 5,
                    d_updated_at = 5\<rparr>],
       transactions = []\<rparr>)"
    by (simp add: create_device_def upper_char_def DeviceType_by_name_def Let_def
                  boot_def draws0_def gate_def lobby_def)
  from create_device_inactive [OF run] run show ?thesis by simp
qed

text \<open>
  Claim C10. For a device that exists, a toggle whose commit succeeds returns and stores
  the device with the other status (active becomes inactive, inactive becomes active), and
  a second toggle returns and stores it with the status it had at the start.
\<close>

theorem toggle_device_status_involution:
  assumes "get_device_by_id db did = Some dev"
      and "\<not> commit_fails e1" and "\<not> commit_fails e2"
  shows "\<exists>dev1 db1 dev2 db2.
           toggle_device_status e1 db did = (Inr (Some dev1), db1) \<and>
           get_device_by_id db1 did = Some dev1 \<and>
           (d_status dev = ACTIVE \<longrightarrow> d_status dev1 = INACTIVE) \<and>
           (d_status dev = INACTIVE \<longrightarrow> d_status dev1 = ACTIVE) \<and>
           toggle_device_status e2 db1 did = (Inr (Some dev2), db2) \<and>
           get_device_by_id db2 did = Some dev2 \<and>
           d_status dev2 = d_status dev"
proof -
  from toggle_once [OF assms(1,2)] obtain dev1 db1 where
    one: "toggle_device_status e1 db did = (Inr (Some dev1), db1)"
         "d_status dev1 = (if d_status dev = ACTIVE then INACTIVE else ACTIVE)"
         "get_device_by_id db1 did = Some dev1"
    by blast
  from toggle_once [OF one(3) assms(3)] obtain dev2 db2 where
    two: "toggle_device_status e2 db1 did = (Inr (Some dev2), db2)"
         "d_status dev2 = (if d_status dev1 = ACTIVE then INACTIVE else ACTIVE)"
         "get_device_by_id db2 did = Some dev2"
    by blast
  have "d_status dev2 = d_status dev"
    using one(2) two(2) by (cases "d_status dev") simp_all
  with one two show ?thesis by (cases "d_status dev") auto
qed

theorem toggle_device_status_involution_witness:
  "get_device_by_id (store boot) 1 = Some gate \<and> d_status gate = ACTIVE \<and>
   (\<exists>dev1 db1 dev2 db2.
      toggle_device_status (r_store draws0) (store boot) 1 = (Inr (Some dev1), db1) \<and>
      d_status dev1 = INACTIVE \<and>
      toggle_device_status (r_store draws0) db1 1 = (Inr (Some dev2), db2) \<and>
      d_status dev2 = ACTIVE)"
proof -
  have found: "get_device_by_id (store boot) 1 = Some gate"
    by (simp add: get_device_by_id_def boot_def gate_def)
  have commits: "\<not> commit_fails (r_store draws0)"
    by (simp add: draws0_def)
  have active: "d_status gate = ACTIVE"
    by (simp add: gate_def)
  from toggle_device_status_involution [OF found commits commits] found active
  show ?thesis by auto
qed

section \<open>Properties of the worker lifecycle manager\<close>

lemma keys_update_new:
  "k \<notin> fst ` set al \<Longrightarrow> AList.update k v al = al @ [(k, v)]"
  by (induction al) auto

lemma start_registered:
  "did \<in> fst ` set (active_workers s) \<Longrightarrow>
   start_device_worker did nm ty s =
     (False, logger WARNING ''Worker for device is already running'' s)"
  by (simp add: start_device_worker_def)

lemma start_fresh:
  "did \<notin> fst ` set (active_workers s) \<Longrightarrow>
   start_device_worker did nm ty s =
     (True, logger INFO ''Started worker for device''
        (s\<lparr>tasks := tasks s @ [\<lparr>w_device_id = did, w_device_name = nm,
               w_device_type = ty, task_state = Created, must_cancel = False\<rparr>],
           active_workers := active_workers s @ [(did, length (tasks s))]\<rparr>))"
  by (simp add: start_device_worker_def create_task_def keys_update_new)

lemma logger_frame:
  "active_workers (logger l m s) = active_workers s"
  "tasks (logger l m s) = tasks s"
  "store (logger l m s) = store s"
  "logs (logger l m s) = logs s @ [(l, m)]"
  by (simp_all add: logger_def)

text \<open>
  Claim C1. With a handle registered for the device id, \<open>start_device_worker\<close> returns
  false and leaves the dict and the task table as they are; with none registered it
  returns true, creates one task and registers its handle. After a second start for the
  same id, which returns false, the dict holds exactly one entry for that id.
\<close>

theorem start_device_worker_registers_once:
  assumes "distinct (map fst (active_workers s))"
  shows "(did \<in> fst ` set (active_workers s) \<longrightarrow>
            (\<exists>s'. start_device_worker did nm ty s = (False, s') \<and>
                  active_workers s' = active_workers s \<and> tasks s' = tasks s)) \<and>
         (did \<notin> fst ` set (active_workers s) \<longrightarrow>
            (\<exists>s'. start_device_worker did nm ty s = (True, s') \<and>
                  active_workers s' = active_workers s @ [(did, length (tasks s))] \<and>
                  tasks s' =
                    tasks s @ [\<lparr>w_device_id = did, w_device_name = nm, w_device_type = ty,
                                 task_state = Created, must_cancel = False\<rparr>])) \<and>
         (\<exists>s1 s2. snd (start_device_worker did nm ty s) = s1 \<and>
                  start_device_worker did nm' ty' s1 = (False, s2) \<and>
                  active_workers s2 = active_workers s1 \<and> tasks s2 = tasks s1 \<and>
                  length (filter (\<lambda>p. fst p = did) (active_workers s2)) = 1)"
proof -
  define s1 where "s1 = snd (start_device_worker did nm ty s)"
  have in1: "did \<in> fst ` set (active_workers s1)"
    unfolding s1_def using start_registered [of did s nm ty] start_fresh [of did s nm ty]
    by (cases "did \<in> fst ` set (active_workers s)") (auto simp: logger_def)
  have dist1: "distinct (map fst (active_workers s1))"
    unfolding s1_def using start_registered [of did s nm ty] start_fresh [of did s nm ty] assms
    by (cases "did \<in> fst ` set (active_workers s)") (auto simp: logger_def)
  have one: "length (filter (\<lambda>p. fst p = did) al) = 1"
    if "distinct (map fst al)" "did \<in> fst ` set al" for al :: "(uuid \<times> task_ref) list"
    using that by (induction al) (auto simp: filter_empty_conv image_iff)
  show ?thesis
    using start_registered [of did s nm ty] start_fresh [of did s nm ty]
      start_registered [OF in1, of nm' ty'] one [OF dist1 in1]
    by (auto simp: logger_def s1_def)
qed

theorem start_device_worker_registers_once_witness:
  "distinct (map fst (active_workers boot)) \<and>
   (\<exists>s1 s2. start_device_worker 1 ''gate'' ANPR boot = (True, s1) \<and>
            active_workers s1 = [(1, 0)] \<and>
            start_device_worker 1 ''gate'' ANPR s1 = (False, s2) \<and>
            active_workers s2 = [(1, 0)] \<and> tasks s2 = tasks s1 \<and>
            length (filter (\<lambda>p. fst p = 1) (active_workers s2)) = 1)"
proof -
  have dict: "distinct (map fst (active_workers boot))"
    by (simp add: boot_def)
  have empty: "active_workers boot = []" "tasks boot = []"
    by (simp_all add: boot_def)
  from start_device_worker_registers_once [OF dict, of 1 "''gate''" ANPR "''gate''" ANPR]
  show ?thesis
    unfolding empty by (simp add: dict) (metis snd_conv)
qed

subsection \<open>What one run of a task changes\<close>

lemma iteration_frame:
  "active_workers (device_worker_iteration e t s) = active_workers s"
  "tasks (device_worker_iteration e t s) = tasks s"
  by (auto simp: device_worker_iteration_def logger_def split: prod.splits sum.splits)

lemma run_task_registry: "active_workers (run_task e k s) = active_workers s"
  by (auto simp: run_task_def Let_def set_task_def logger_def iteration_frame
           split: task_state.splits)

lemma run_task_length: "length (tasks (run_task e k s)) = length (tasks s)"
  by (auto simp: run_task_def Let_def set_task_def logger_def iteration_frame
           split: task_state.splits)

lemma run_task_device:
  "w_device_id (tasks (run_task e k s) ! j) = w_device_id (tasks s ! j)"
  by (cases "j = k")
     (auto simp: run_task_def Let_def set_task_def logger_def iteration_frame
           split: task_state.splits)

lemma run_task_finished:
  "task_state (tasks s ! j) = Finished \<Longrightarrow> task_state (tasks (run_task e k s) ! j) = Finished"
  by (cases "j = k")
     (auto simp: run_task_def Let_def set_task_def logger_def iteration_frame
           split: task_state.splits)






subsection \<open>What a schedule changes\<close>

lemma run_schedule_Nil: "run_schedule [] s = s"
  by (simp add: run_schedule_def)

lemma run_schedule_Cons: "run_schedule (st # sched) s = run_schedule sched (run_step st s)"
  by (simp add: run_schedule_def)

lemma workers_only_Cons: "workers_only (st # sched) \<longleftrightarrow> is_run st \<and> workers_only sched"
  by (simp add: workers_only_def)

lemma is_run_Run: "is_run st \<Longrightarrow> \<exists>e k. st = Run e k"
  by (cases st) simp_all




subsection \<open>The registry invariant\<close>

lemma registry_ok_iff:
  "registry_ok s \<longleftrightarrow>
     distinct (map fst (active_workers s)) \<and>
     (\<forall>d k. (d, k) \<in> set (active_workers s) \<longrightarrow>
        k < length (tasks s) \<and> w_device_id (tasks s ! k) = d) \<and>
     (\<forall>k < length (tasks s). task_state (tasks s ! k) \<noteq> Finished \<longrightarrow>
        (w_device_id (tasks s ! k), k) \<in> set (active_workers s))"
  by (auto simp: registry_ok_def)










subsection \<open>Stopping one worker\<close>

lemma stop_unregistered_eq:
  "did \<notin> fst ` set (active_workers s) \<Longrightarrow>
   stop_device_worker sched did s =
     Some (Inr False, logger WARNING ''No worker found for device'' s)"
  using map_of_eq_None_iff [of "active_workers s" did]
  by (simp add: stop_device_worker_def)





text \<open>
  Claim C6. For a device id with no registered handle, \<open>stop_device_worker\<close> returns
  false at once, whatever the event loop would run, and the dict, the task table and the
  store are exactly as before (only the warning is logged).
\<close>

theorem stop_unregistered_no_change:
  assumes "did \<notin> fst ` set (active_workers s)"
  shows "\<exists>s'. stop_device_worker sched did s = Some (Inr False, s') \<and>
              active_workers s' = active_workers s \<and> tasks s' = tasks s \<and>
              store s' = store s"
  using stop_unregistered_eq [OF assms] by (simp add: logger_frame)

theorem stop_unregistered_no_change_witness:
  "1 \<notin> fst ` set (active_workers orphan) \<and>
   (\<exists>s'. stop_device_worker [Run draws0 0] 1 orphan = Some (Inr False, s') \<and>
         active_workers s' = active_workers orphan \<and> tasks s' = tasks orphan \<and>
         store s' = store orphan)"
proof -
  have unregistered: "1 \<notin> fst ` set (active_workers orphan)"
    by (simp add: orphan_def)
  from stop_unregistered_no_change [OF unregistered] unregistered show ?thesis
    by blast
qed

text \<open>
  Claim C5. When the loop of a worker that is asleep and not cancelled wakes up and its
  emission fails (with any error of \<open>create_transaction\<close>, such as the one for a device
  that is no longer in the store), the run only logs the error: the store is unchanged,
  the task is asleep again and still not cancelled, and its next run is another
  iteration of the loop.
\<close>

theorem failed_emission_keeps_worker:
  assumes "k < length (tasks s)"
      and "task_state (tasks s ! k) = Sleeping"
      and "\<not> must_cancel (tasks s ! k)"
      and "fst (create_transaction (r_store e) (store s) (next_transaction_data e (tasks s ! k)))
             = Inl err"
  shows "run_task e k s = logger ERROR ''Error creating transaction for device'' s \<and>
         task_state (tasks (run_task e k s) ! k) = Sleeping \<and>
         \<not> must_cancel (tasks (run_task e k s) ! k) \<and>
         store (run_task e k s) = store s \<and>
         (\<forall>e'. run_task e' k (run_task e k s) =
                device_worker_iteration e' (tasks s ! k) (run_task e k s))"
proof -
  have unchanged: "snd (create_transaction (r_store e) (store s) td) = store s"
    if "fst (create_transaction (r_store e) (store s) td) = Inl err" for td
    using that
    by (auto simp: create_transaction_def Let_def split: option.splits if_splits)
  have step: "run_task e k s = logger ERROR ''Error creating transaction for device'' s"
    using assms unchanged [OF assms(4)]
    by (auto simp: run_task_def device_worker_iteration_def Let_def split: prod.splits sum.splits)
  show ?thesis
    using assms(1,2,3) unfolding step
    by (simp add: logger_frame) (simp add: run_task_def logger_frame)
qed

theorem failed_emission_keeps_worker_witness:
  "run_task draws0 0 orphan = logger ERROR ''Error creating transaction for device'' orphan \<and>
   task_state (tasks (run_task draws0 0 orphan) ! 0) = Sleeping \<and>
   store (run_task draws0 0 orphan) = store orphan"
proof -
  have fails: "fst (create_transaction (r_store draws0) (store orphan)
                      (next_transaction_data draws0 (tasks orphan ! 0)))
               = Inl (ValueError ''Device with id 3 does not exist'')"
    by (simp add: create_transaction_def next_transaction_data_def orphan_def gate_def
                  lobby_def str_nat.simps digit_char_def Let_def)
  have "0 < length (tasks orphan)" "task_state (tasks orphan ! 0) = Sleeping"
       "\<not> must_cancel (tasks orphan ! 0)"
    by (simp_all add: orphan_def)
  from failed_emission_keeps_worker [OF this fails] show ?thesis
    by blast
qed

subsection \<open>The invariant is kept by every operation\<close>

lemma registry_ok_initial:
  "registry_ok \<lparr>active_workers = [], tasks = [], store = db, logs = []\<rparr>"
  by (simp add: registry_ok_def)

lemma run_task_registry_ok:
  assumes "registry_ok s"
  shows "registry_ok (run_task e k s)"
  unfolding registry_ok_iff
proof (intro conjI allI impI)
  show "distinct (map fst (active_workers (run_task e k s)))"
    using assms by (simp add: run_task_registry registry_ok_iff)
next
  fix d j assume "(d, j) \<in> set (active_workers (run_task e k s))"
  with assms have "j < length (tasks s) \<and> w_device_id (tasks s ! j) = d"
    by (simp add: run_task_registry registry_ok_iff)
  then show "j < length (tasks (run_task e k s))"
    and "w_device_id (tasks (run_task e k s) ! j) = d"
    by (simp_all add: run_task_length run_task_device)
next
  fix j assume j: "j < length (tasks (run_task e k s))"
    and live: "task_state (tasks (run_task e k s) ! j) \<noteq> Finished"
  from live have "task_state (tasks s ! j) \<noteq> Finished"
    using run_task_finished by blast
  with assms j have "(w_device_id (tasks s ! j), j) \<in> set (active_workers s)"
    by (simp add: registry_ok_iff run_task_length)
  then show "(w_device_id (tasks (run_task e k s) ! j), j) \<in>
             set (active_workers (run_task e k s))"
    by (simp add: run_task_registry run_task_device)
qed

lemma run_schedule_registry_ok:
  "workers_only sched \<Longrightarrow> registry_ok s \<Longrightarrow> registry_ok (run_schedule sched s)"
proof (induction sched arbitrary: s)
  case Nil
  then show ?case by (simp add: run_schedule_Nil)
next
  case (Cons st sched)
  from Cons.prems(1) obtain e k where st: "st = Run e k" and rest: "workers_only sched"
    by (auto simp: workers_only_Cons dest: is_run_Run)
  from Cons.prems(2) have "registry_ok (run_task e k s)" by (rule run_task_registry_ok)
  from Cons.IH [OF rest this] show ?case by (simp add: st run_schedule_Cons)
qed


lemma start_keys:
  "fst ` set (active_workers (snd (start_device_worker did nm ty s))) =
   insert did (fst ` set (active_workers s))"
  by (cases "did \<in> fst ` set (active_workers s)")
     (auto simp: start_registered start_fresh logger_frame)







subsection \<open>Stopping every worker\<close>







text \<open>
  With the stop of another caller for the same device overlapping, the \<open>del\<close> of the
  later one finds the key gone.
\<close>

lemma overlapping_stop_raises_KeyError:
  "map_option fst
     (stop_device_worker [Stop_begin 1, Run draws0 0, Stop_end 1 0] 1 running) =
   Some (Inl KeyError)"
  by (simp add: stop_device_worker_def await_task_def run_schedule_def run_task_def
                cancel_def set_task_def task_done_def logger_def running_def Let_def)

section \<open>Properties of the startup reconciler\<close>

lemma restore_workers_stops:
  assumes "\<forall>x \<in> set before. raises x = None" and "raises failing = Some (point, err)"
  shows "\<exists>s'. restore_workers raises (before @ failing # remaining) s = (Inl err, s') \<and>
              fst ` set (active_workers s) \<union> d_id ` set before \<subseteq>
                fst ` set (active_workers s') \<and>
              fst ` set (active_workers s') \<subseteq>
                fst ` set (active_workers s) \<union> d_id ` set before \<union> {d_id failing}"
  using assms(1)
proof (induction before arbitrary: s)
  case Nil
  define s1 where "s1 = snd (start_device_worker (d_id failing) (d_name failing)
                               (d_device_type failing) s)"
  have keys1: "fst ` set (active_workers s1) = insert (d_id failing) (fst ` set (active_workers s))"
    by (simp add: s1_def start_keys)
  show ?case
  proof (cases point)
    case Before_registration
    with assms(2) have "restore_workers raises ([] @ failing # remaining) s = (Inl err, s)"
      by (simp add: Let_def)
    then show ?thesis by auto
  next
    case After_registration
    with assms(2) have "restore_workers raises ([] @ failing # remaining) s = (Inl err, s1)"
      by (simp add: Let_def s1_def)
    moreover have "fst ` set (active_workers s) \<union> d_id ` set [] \<subseteq> fst ` set (active_workers s1)"
      unfolding keys1 by auto
    moreover have "fst ` set (active_workers s1) \<subseteq>
                   fst ` set (active_workers s) \<union> d_id ` set [] \<union> {d_id failing}"
      unfolding keys1 by auto
    ultimately show ?thesis by blast
  qed
next
  case (Cons x before)
  define s1 where "s1 = logger INFO ''Restored worker for device''
                          (snd (start_device_worker (d_id x) (d_name x) (d_device_type x) s))"
  have keys1: "fst ` set (active_workers s1) = insert (d_id x) (fst ` set (active_workers s))"
    by (simp add: s1_def logger_frame start_keys)
  from Cons.prems have "\<forall>y \<in> set before. raises y = None" by simp
  from Cons.IH [OF this, of s1] obtain s' where
    s': "restore_workers raises (before @ failing # remaining) s1 = (Inl err, s')"
        "fst ` set (active_workers s1) \<union> d_id ` set before \<subseteq> fst ` set (active_workers s')"
        "fst ` set (active_workers s') \<subseteq>
           fst ` set (active_workers s1) \<union> d_id ` set before \<union> {d_id failing}"
    by blast
  have run: "restore_workers raises ((x # before) @ failing # remaining) s = (Inl err, s')"
    using Cons.prems s'(1) by (simp add: s1_def Let_def)
  have "fst ` set (active_workers s) \<union> d_id ` set (x # before) \<subseteq>
        fst ` set (active_workers s')"
    using s'(2) unfolding keys1 by auto
  moreover have "fst ` set (active_workers s') \<subseteq>
      fst ` set (active_workers s) \<union> d_id ` set (x # before) \<union> {d_id failing}"
    using s'(3) unfolding keys1 by auto
  ultimately show ?case using run by blast
qed

text \<open>
  Claim C4 does not hold as stated. With two active devices, \<open>gate\<close> before
  \<open>lobby\<close>, and an error raised in the loop body for \<open>gate\<close>, startup returns
  normally and \<open>lobby\<close>, whose own start raises nothing, has no worker: the loop is
  inside one \<open>try\<close>, and the first error leaves it.
\<close>

theorem lifespan_startup_skips_remaining_devices:
  "lobby \<in> set (get_active_devices (store boot)) \<and>
   start_raises gate_fails lobby = None \<and>
   fst (lifespan_startup gate_fails boot) = Inr () \<and>
   \<not> is_worker_active (d_id lobby) (snd (lifespan_startup gate_fails boot))"
  by (simp add: lifespan_startup_def gate_fails_def boot_def get_active_devices_def
                gate_def lobby_def logger_def is_worker_active_def Let_def)

text \<open>
  Claim C4, amended. An error raised in the loop body for one active device is logged and
  does not propagate out of startup, and it ends the reconciliation: the active devices
  listed before the failing one have their workers, and for every device other than
  those and the failing one the registration is as before startup, so the devices after
  the failing one get no worker.
\<close>

theorem lifespan_startup_stops_at_first_error:
  assumes "init_db_raises f = None" and "query_raises f = None"
      and "get_active_devices (store s) = before @ failing # remaining"
      and "\<forall>x \<in> set before. start_raises f x = None"
      and "start_raises f failing = Some (point, err)"
  shows "\<exists>s'. lifespan_startup f s = (Inr (), s') \<and>
              last (logs s') = (ERROR, ''Error during startup initialization'') \<and>
              (\<forall>d \<in> d_id ` set before. is_worker_active d s') \<and>
              (\<forall>d. d \<notin> d_id ` set before \<and> d \<noteq> d_id failing \<longrightarrow>
                     is_worker_active d s' = is_worker_active d s)"
proof -
  define s1 where "s1 = logger INFO ''Found active device(s). Starting workers...''
                          (logger INFO ''Starting device workers...''
                             (logger INFO ''Database tables initialized successfully''
                                (logger INFO ''Application startup: Initializing database...'' s)))"
  have keys1: "active_workers s1 = active_workers s" and store1: "store s1 = store s"
    by (simp_all add: s1_def logger_frame)
  from restore_workers_stops [OF assms(4,5), of remaining s1] obtain s2 where
    s2: "restore_workers (start_raises f) (before @ failing # remaining) s1 = (Inl err, s2)"
        "fst ` set (active_workers s1) \<union> d_id ` set before \<subseteq> fst ` set (active_workers s2)"
        "fst ` set (active_workers s2) \<subseteq>
           fst ` set (active_workers s1) \<union> d_id ` set before \<union> {d_id failing}"
    by blast
  define s' where "s' = logger ERROR ''Error during startup initialization'' s2"
  have "lifespan_startup f s = (Inr (), s')"
    using assms(1,2,3) s2(1)
    by (simp add: lifespan_startup_def Let_def logger_frame s1_def s'_def)
  moreover have "last (logs s') = (ERROR, ''Error during startup initialization'')"
    by (simp add: s'_def logger_frame)
  moreover have "\<forall>d \<in> d_id ` set before. is_worker_active d s'"
    using s2(2) by (auto simp: is_worker_active_def s'_def logger_frame)
  moreover have "\<forall>d. d \<notin> d_id ` set before \<and> d \<noteq> d_id failing \<longrightarrow>
                     is_worker_active d s' = is_worker_active d s"
    using s2(2,3) unfolding keys1 by (auto simp: is_worker_active_def s'_def logger_frame)
  ultimately show ?thesis by blast
qed

theorem lifespan_startup_stops_at_first_error_witness:
  "get_active_devices (store boot) = [] @ gate # [lobby] \<and>
   start_raises gate_fails gate = Some (Before_registration, Exception ''boom'') \<and>
   start_raises gate_fails_late gate = Some (After_registration, Exception ''boom'') \<and>
   (\<exists>s'. lifespan_startup gate_fails boot = (Inr (), s') \<and>
         last (logs s') = (ERROR, ''Error during startup initialization'') \<and>
         \<not> is_worker_active 2 s') \<and>
   (\<exists>s'. lifespan_startup gate_fails_late boot = (Inr (), s') \<and>
         last (logs s') = (ERROR, ''Error during startup initialization'') \<and>
         \<not> is_worker_active 2 s')"
proof -
  have faults: "init_db_raises gate_fails = None" "query_raises gate_fails = None"
    by (simp_all add: gate_fails_def)
  have faults_late: "init_db_raises gate_fails_late = None" "query_raises gate_fails_late = None"
    by (simp_all add: gate_fails_late_def)
  have active: "get_active_devices (store boot) = [] @ gate # [lobby]"
    by (simp add: get_active_devices_def boot_def gate_def lobby_def)
  have none_before: "\<forall>x \<in> set []. start_raises gate_fails x = None"
    "\<forall>x \<in> set []. start_raises gate_fails_late x = None"
    by simp_all
  have raises: "start_raises gate_fails gate = Some (Before_registration, Exception ''boom'')"
    by (simp add: gate_fails_def)
  have raises_late:
    "start_raises gate_fails_late gate = Some (After_registration, Exception ''boom'')"
    by (simp add: gate_fails_late_def)
  have idle: "\<not> is_worker_active 2 boot" "2 \<notin> d_id ` set []" "2 \<noteq> d_id gate"
    by (simp_all add: is_worker_active_def boot_def gate_def)
  from lifespan_startup_stops_at_first_error [OF faults active none_before(1) raises] idle
  have early: "\<exists>s'. lifespan_startup gate_fails boot = (Inr (), s') \<and>
         last (logs s') = (ERROR, ''Error during startup initialization'') \<and>
         \<not> is_worker_active 2 s'"
    by auto
  from lifespan_startup_stops_at_first_error
         [OF faults_late active none_before(2) raises_late] idle
  have late: "\<exists>s'. lifespan_startup gate_fails_late boot = (Inr (), s') \<and>
         last (logs s') = (ERROR, ''Error during startup initialization'') \<and>
         \<not> is_worker_active 2 s'"
    by auto
  from active raises raises_late early late show ?thesis by (intro conjI)
qed

end
